theory Spec2Isabelle
  imports Main "HOL-Library.Sublist"
begin

section \<open>Python values and strings\<close>

text \<open>
  The two programs are Python scripts. A Python \<open>str\<close> is modelled as a \<^typ>\<open>string\<close>, each
  \<^typ>\<open>char\<close> read as the code point of the same number, so the model covers the text whose
  code points are below 256. The character classes below are Python's own on that range
  (\<open>str.isspace\<close>, which is also the \<open>\s\<close> of \<open>re\<close>; the \<open>\w\<close> of \<open>re\<close>; \<open>str.lower\<close>).
\<close>

definition isspace :: "char \<Rightarrow> bool" where
  "isspace c = (List.member [9, 10, 11, 12, 13, 28, 29, 30, 31, 32, 133, 160] (of_char c :: nat))"

definition isword :: "char \<Rightarrow> bool" where
  "isword c =
     (let n = (of_char c :: nat) in
        (48 \<le> n \<and> n \<le> 57) \<or> (65 \<le> n \<and> n \<le> 90) \<or> n = 95 \<or> (97 \<le> n \<and> n \<le> 122) \<or>
        List.member [170, 178, 179, 181, 185, 186, 188, 189, 190] n \<or>
        (192 \<le> n \<and> n \<le> 214) \<or> (216 \<le> n \<and> n \<le> 246) \<or> (248 \<le> n \<and> n \<le> 255))"

definition lower_char :: "char \<Rightarrow> char" where
  "lower_char c =
     (let n = (of_char c :: nat) in
        if (65 \<le> n \<and> n \<le> 90) \<or> (192 \<le> n \<and> n \<le> 214) \<or> (216 \<le> n \<and> n \<le> 222)
        then char_of (n + 32) else c)"

text \<open>\<open>s.lower()\<close>.\<close>

definition lower :: "string \<Rightarrow> string" where
  "lower s = map lower_char s"

text \<open>\<open>sub in s\<close> on two strings: \<open>sub\<close> occurs in \<open>s\<close> as a contiguous substring.\<close>

fun str_in :: "string \<Rightarrow> string \<Rightarrow> bool" where
  "str_in sub [] = (sub = [])"
| "str_in sub (c # cs) = (prefix sub (c # cs) \<or> str_in sub cs)"

section \<open>The scraper: the retry client\<close>

text \<open>
  Values read from JSON, and the exceptions the two scripts can meet. Numbers are modelled by
  integers. An object is the list of its key/value pairs as \<open>json.load\<close> holds them in a
  \<open>dict\<close>: keys are distinct.
\<close>

datatype py_error = ValueError | AttributeError | TypeError | JSONDecodeError

datatype json = JNull | JBool bool | JNum int | JStr string | JList "json list"
  | JObj "(string \<times> json) list"

text \<open>
  What \<open>make_request_with_retry\<close> reads of a response: the status code, the
  \<open>Retry-After\<close> header as \<open>int(...)\<close> sees it (absent, a value it converts, or a value
  it refuses with \<open>ValueError\<close>), and the body (\<^const>\<open>None\<close> when it is not JSON).
\<close>

datatype retry_after = Absent | Seconds int | Malformed

record response =
  status_code :: int
  retry_after :: retry_after
  body :: "json option"















section \<open>The scraper: keyword extraction\<close>

text \<open>The list \<open>keywords\<close> of \<open>extract_keywords\<close>.\<close>

definition keywords_vocab :: "string list" where
  "keywords_vocab = [''Fairtrade'', ''FSC'', ''Handmade'', ''Artisan'', ''Sustainable'', ''Organic'',
     ''Eco-friendly'']"

text \<open>
  The loop of \<open>extract_keywords\<close>: \<open>found_keywords\<close> grows by \<open>append\<close> while the
  vocabulary is walked in its order.
\<close>

fun scan_keywords :: "string \<Rightarrow> string list \<Rightarrow> string list \<Rightarrow> string list" where
  "scan_keywords text_lower [] found_keywords = found_keywords"
| "scan_keywords text_lower (keyword # rest) found_keywords =
     scan_keywords text_lower rest
       (if str_in (lower keyword) text_lower then found_keywords @ [keyword] else found_keywords)"

definition extract_keywords :: "string \<Rightarrow> string list" where
  "extract_keywords text =
     (if text = [] then [] else scan_keywords (lower text) keywords_vocab [])"

text \<open>
  The specification's reading: a keyword occurs in the text as a case-insensitive substring
  when, at some offset, the text holds as many characters as the keyword has, equal to the
  keyword's up to letter case.
\<close>

definition ci_eq :: "string \<Rightarrow> string \<Rightarrow> bool" where
  "ci_eq a b = (map lower_char a = map lower_char b)"

definition ci_occurs :: "string \<Rightarrow> string \<Rightarrow> bool" where
  "ci_occurs k t = list_ex (\<lambda>i. ci_eq (take (length k) (drop i t)) k) [0..<Suc (length t)]"

section \<open>The scraper: price display\<close>

text \<open>
  The extraction prompt asks for prices as strings, \<open>null\<close> when missing: a price is a
  \<^typ>\<open>string option\<close>, \<^const>\<open>None\<close> for Python's \<open>None\<close>. A key that is absent reads as
  the default \<open>''\<close>, that is \<open>Some []\<close>.
\<close>

definition truthy_price :: "string option \<Rightarrow> bool" where
  "truthy_price v = (case v of None \<Rightarrow> False | Some s \<Rightarrow> s \<noteq> [])"

text \<open>How an f-string renders such a value.\<close>

definition format_price :: "string option \<Rightarrow> string" where
  "format_price v = (case v of None \<Rightarrow> ''None'' | Some s \<Rightarrow> s)"

definition price_display :: "string option \<Rightarrow> string option \<Rightarrow> string option" where
  "price_display current_price original_price =
     (if truthy_price original_price \<and> original_price \<noteq> current_price
      then Some (format_price current_price @ '' (was '' @ format_price original_price @ '')'')
      else current_price)"

text \<open>
  The specification's reading: the original price is present when it is neither null nor
  the empty default.
\<close>

definition original_present :: "string option \<Rightarrow> bool" where
  "original_present original = (original \<noteq> None \<and> original \<noteq> Some [])"

definition displayed_price :: "string \<Rightarrow> string option \<Rightarrow> string" where
  "displayed_price current original =
     (if original_present original \<and> original \<noteq> Some current
      then current @ '' (was '' @ the original @ '')'' else current)"

section \<open>The scraper: file names\<close>

text \<open>
  \<open>re.sub(r'[^\w\s-]', '', name)\<close>: the scan deletes each character that the class matches,
  that is each character that is not a word character, not whitespace and not a hyphen.
\<close>

fun sub_unwanted :: "string \<Rightarrow> string" where
  "sub_unwanted [] = []"
| "sub_unwanted (c # cs) =
     (if \<not> (isword c \<or> isspace c \<or> c = CHR ''-'') then sub_unwanted cs else c # sub_unwanted cs)"

definition is_sep :: "char \<Rightarrow> bool" where
  "is_sep c = (c = CHR ''-'' \<or> isspace c)"

text \<open>
  \<open>re.sub(r'[-\s]+', '_', cleaned)\<close>: at a character of the class the match is greedy, it takes
  the whole run, puts one underscore for it and the scan goes on after the run.
\<close>

function sub_runs :: "string \<Rightarrow> string" where
  "sub_runs [] = []"
| "sub_runs (c # cs) =
     (if is_sep c then CHR ''_'' # sub_runs (dropWhile is_sep cs) else c # sub_runs cs)"
  by pat_completeness auto
termination
  by (relation "measure length") (auto simp: length_dropWhile_le less_Suc_eq_le)

text \<open>The name is a string or \<open>None\<close>; \<open>cleaned[:50]\<close> is \<^const>\<open>take\<close>.\<close>

definition clean_filename :: "string option \<Rightarrow> string" where
  "clean_filename name =
     (case name of
        None \<Rightarrow> ''unknown_product''
      | Some n \<Rightarrow>
          if n = [] then ''unknown_product''
          else (let cleaned = sub_unwanted n; cleaned = sub_runs cleaned in take 50 cleaned))"

text \<open>
  The specification's reading. Stripping keeps the word characters, the whitespace and the
  hyphens. Collapsing replaces every run of hyphens and whitespace by one underscore: the
  character at offset \<open>i\<close> gives an underscore when it starts a run, nothing when it goes on
  a run, and itself otherwise.
\<close>

definition is_kept :: "char \<Rightarrow> bool" where
  "is_kept c = (isword c \<or> isspace c \<or> c = CHR ''-'')"

definition piece :: "string \<Rightarrow> nat \<Rightarrow> string" where
  "piece s i =
     (if is_sep (s ! i) then (if 0 < i \<and> is_sep (s ! (i - 1)) then [] else ''_'') else [s ! i])"

definition collapse_runs :: "string \<Rightarrow> string" where
  "collapse_runs s = concat (map (piece s) [0..<length s])"

definition filename_of :: "string \<Rightarrow> string" where
  "filename_of name = take 50 (collapse_runs (filter is_kept name))"

text \<open>The same collapse as a scan that remembers whether the last character was in a run.\<close>

fun collapse_from :: "bool \<Rightarrow> string \<Rightarrow> string" where
  "collapse_from prev [] = []"
| "collapse_from prev (c # cs) =
     (if is_sep c then (if prev then [] else ''_'') @ collapse_from True cs
      else c # collapse_from False cs)"

section \<open>The cleaner: strings\<close>

text \<open>
  \<open>s.replace(old, new)\<close>: the occurrences of \<open>old\<close> are found from the left, each search
  going on after the last occurrence replaced. (An empty \<open>old\<close> puts \<open>new\<close> around every
  character; the scripts never pass one.)
\<close>

function py_replace :: "string \<Rightarrow> string \<Rightarrow> string \<Rightarrow> string" where
  "py_replace old new [] = (if old = [] then new else [])"
| "py_replace old new (c # cs) =
     (if old = [] then new @ c # py_replace old new cs
      else if prefix old (c # cs) then new @ py_replace old new (drop (length old) (c # cs))
      else c # py_replace old new cs)"
  by pat_completeness auto
termination
  by (relation "measure (\<lambda>(old, new, s). length s)") auto

text \<open>\<open>s.split(sep)[0]\<close> for a non-empty \<open>sep\<close>: what stands before its first occurrence.\<close>

fun split_head :: "string \<Rightarrow> string \<Rightarrow> string" where
  "split_head sep [] = []"
| "split_head sep (c # cs) = (if prefix sep (c # cs) then [] else c # split_head sep cs)"

text \<open>
  \<open>s.split()\<close>: the maximal runs of characters that are not whitespace; \<open>word\<close> is the run
  being read.
\<close>

fun split_ws :: "string \<Rightarrow> string \<Rightarrow> string list" where
  "split_ws word [] = (if word = [] then [] else [word])"
| "split_ws word (c # cs) =
     (if isspace c then (if word = [] then [] else [word]) @ split_ws [] cs
      else split_ws (word @ [c]) cs)"

text \<open>\<open>' '.join(words)\<close> and \<open>s.strip()\<close>.\<close>

fun join_space :: "string list \<Rightarrow> string" where
  "join_space [] = []"
| "join_space [w] = w"
| "join_space (w # ws) = w @ '' '' @ join_space ws"

definition strip :: "string \<Rightarrow> string" where
  "strip s = rev (dropWhile isspace (rev (dropWhile isspace s)))"

text \<open>The truth value Python gives a value read from JSON.\<close>

definition truthy :: "json \<Rightarrow> bool" where
  "truthy v =
     (case v of JNull \<Rightarrow> False | JBool b \<Rightarrow> b | JNum n \<Rightarrow> n \<noteq> 0 | JStr s \<Rightarrow> s \<noteq> []
      | JList xs \<Rightarrow> xs \<noteq> [] | JObj kvs \<Rightarrow> kvs \<noteq> [])"

section \<open>The cleaner: descriptions and prices\<close>

definition sections_to_remove :: "string list" where
  "sections_to_remove =
     [''### Story'', ''### Product Details'', ''### Care'', ''### Shipping'', ''### Returns'',
      ''Customer Reviews'', ''Write a Review'', ''Shipping'', ''Returns'', ''Easy 30 Day Returns'',
      ''In stock. Ready to ship.'', ''Translation missing:'', ''Add To Bag'', ''Your email address'',
      ''Want early access'', ''Ships '', ''Most in-stock items'', ''Exchanges and returns'',
      ''White glove delivery'', ''For more information'', ''Customer Photos'', ''Ask a Question'',
      ''Based on'', ''Reviews'', ''Was this helpful?'', ''United States'', ''Loading more...'',
      ''Filter Reviews:'', ''Sort'']"

text \<open>
  The loop over the markers: each marker found in what is left of the description cuts it
  before that marker's first occurrence.
\<close>

fun truncate_at_markers :: "string list \<Rightarrow> string \<Rightarrow> string" where
  "truncate_at_markers [] clean_desc = clean_desc"
| "truncate_at_markers (marker # rest) clean_desc =
     truncate_at_markers rest
       (if str_in marker clean_desc then split_head marker clean_desc else clean_desc)"

definition newline :: char where
  "newline = CHR 0x0A"

text \<open>The two \<open>replace\<close> calls, the \<open>split\<close>/\<open>join\<close> and the final \<open>strip\<close>.\<close>

definition normalise_space :: "string \<Rightarrow> string" where
  "normalise_space clean_desc =
     (let clean_desc = py_replace [newline] '' '' (py_replace [newline, newline] '' '' clean_desc);
          clean_desc = join_space (split_ws [] clean_desc)
      in strip clean_desc)"

text \<open>
  \<open>clean_description\<close> on a value read from JSON. A value that is not a string and not falsy
  has no \<open>split\<close> and no \<open>replace\<close> (a list, an object: \<open>AttributeError\<close>) or cannot stand
  right of \<open>in\<close> (a number, \<open>true\<close>: \<open>TypeError\<close>).
\<close>

definition clean_description :: "json \<Rightarrow> py_error + string" where
  "clean_description description =
     (if \<not> truthy description then Inr []
      else case description of
        JStr d \<Rightarrow> Inr (normalise_space (truncate_at_markers sections_to_remove d))
      | JList xs \<Rightarrow> Inl AttributeError
      | JObj kvs \<Rightarrow> Inl AttributeError
      | _ \<Rightarrow> Inl TypeError)"



text \<open>
  For the statements. \<open>s.find(sub)\<close>, the offset of the first occurrence; the number of
  offsets of \<open>s\<close> at which \<open>sub\<close> occurs; a description free of markers; the earliest offset
  at which a marker occurs in a description, and the description cut there.
\<close>

fun str_find :: "string \<Rightarrow> string \<Rightarrow> nat option" where
  "str_find sub [] = (if sub = [] then Some 0 else None)"
| "str_find sub (c # cs) =
     (if prefix sub (c # cs) then Some 0 else map_option Suc (str_find sub cs))"


definition no_marker :: "string \<Rightarrow> bool" where
  "no_marker d = list_all (\<lambda>marker. \<not> str_in marker d) sections_to_remove"

definition earliest_marker :: "string \<Rightarrow> nat option" where
  "earliest_marker d =
     (case List.map_filter (\<lambda>marker. str_find marker d) sections_to_remove of
        [] \<Rightarrow> None
      | n # ns \<Rightarrow> Some (fold min ns n))"

definition truncate_at_earliest :: "string \<Rightarrow> string" where
  "truncate_at_earliest d = (case earliest_marker d of None \<Rightarrow> d | Some n \<Rightarrow> take n d)"

section \<open>The cleaner: texts for the statements\<close>

text \<open>The result of \<open>split\<close>: words that are not empty and hold no whitespace.\<close>

definition words_ok :: "string list \<Rightarrow> bool" where
  "words_ok ws = (\<forall>w\<in>set ws. w \<noteq> [] \<and> (\<forall>c\<in>set w. \<not> isspace c))"


text \<open>Two descriptions: one with a line break inside "Based on", one with a returns notice.\<close>

definition based_on :: string where
  "based_on = ''Hand-loomed in Peru. Based'' @ [newline] @ ''on a traditional pattern.''"


definition throw_text :: string where
  "throw_text = ''Soft wool throw. Easy 30 Day Returns on all orders.''"

section \<open>The cleaner: JSON to CSV\<close>








text \<open>What a \<open>for\<close> loop iterates over: a list, the characters of a string, the keys of an object.\<close>

definition py_iter :: "json \<Rightarrow> py_error + json list" where
  "py_iter v =
     (case v of
        JList xs \<Rightarrow> Inr xs
      | JStr s \<Rightarrow> Inr (map (\<lambda>c. JStr [c]) s)
      | JObj kvs \<Rightarrow> Inr (map (\<lambda>kv. JStr (fst kv)) kvs)
      | _ \<Rightarrow> Inl TypeError)"




definition rug :: json where
  "rug = JObj [(''Name'', JStr ''Rio Rug''), (''Price'', JStr ''$100 (was null)''),
     (''Description of product'', JStr ''Wool rug.  Shipping in 3 days''),
     (''Original URL'', JStr ''https://www.the-citizenry.com/products/rio-rug''),
     (''Keywords'', JStr ''Handmade''), (''Stretch goals'', JStr []),
     (''Alternative sizes or colors available'', JStr ''Grey, Blue''),
     (''Image Path'', JStr [])]"


section \<open>The scraper: URL discovery\<close>

definition BASE_URL :: string where
  "BASE_URL = ''https://www.the-citizenry.com''"

definition collection_urls :: "string list" where
  "collection_urls =
     map (\<lambda>name. BASE_URL @ ''/collections/'' @ name)
       [''all'', ''accents'', ''baskets'', ''bedding'', ''furniture'', ''lighting'', ''rugs'',
        ''pillows'', ''throws'', ''tabletop'', ''wall-art'', ''mirrors'']"

text \<open>
  \<open>v.get(key, default)\<close> and \<open>key in v\<close> on a value read from JSON: only an object has
  \<open>get\<close>; \<open>in\<close> looks among the keys of an object, the elements of a list, the substrings
  of a string.
\<close>

definition json_get :: "json \<Rightarrow> string \<Rightarrow> json \<Rightarrow> py_error + json" where
  "json_get v key dflt =
     (case v of JObj kvs \<Rightarrow> Inr (case map_of kvs key of Some x \<Rightarrow> x | None \<Rightarrow> dflt)
      | _ \<Rightarrow> Inl AttributeError)"

definition json_has :: "string \<Rightarrow> json \<Rightarrow> py_error + bool" where
  "json_has key v =
     (case v of
        JObj kvs \<Rightarrow> Inr (map_of kvs key \<noteq> None)
      | JList xs \<Rightarrow> Inr (List.member xs (JStr key))
      | JStr s \<Rightarrow> Inr (str_in key s)
      | _ \<Rightarrow> Inl TypeError)"

text \<open>
  The first lines of the two \<open>try\<close> blocks: from \<open>response.json()\<close> to the list that the
  loop iterates over. Any exception on the way is caught by the \<open>except\<close> clause.
\<close>

definition listed_urls :: "string \<Rightarrow> response \<Rightarrow> py_error + json list" where
  "listed_urls key response =
     (case body response of
        None \<Rightarrow> Inl JSONDecodeError
      | Some reply \<Rightarrow>
          (case json_get reply ''data'' (JObj []) of
             Inl e \<Rightarrow> Inl e
           | Inr data \<Rightarrow>
               (case json_has ''json'' data of
                  Inl e \<Rightarrow> Inl e
                | Inr has_json \<Rightarrow>
                    (case (if has_json then json_get data ''json'' (JObj []) else Inr data) of
                       Inl e \<Rightarrow> Inl e
                     | Inr product_data \<Rightarrow>
                         (case json_get product_data key (JList []) of
                            Inl e \<Rightarrow> Inl e
                          | Inr urls \<Rightarrow> py_iter urls)))))"

text \<open>
  The loop of \<open>discover_product_urls\<close> over one answer. The set \<open>all_product_urls\<close> is a
  list without repetitions; the order in which Python lists a set is not specified, and
  nothing below depends on it.
\<close>

definition qualify :: "string \<Rightarrow> string" where
  "qualify url = (if prefix ''/'' url then BASE_URL @ url else url)"

fun add_product_urls :: "json list \<Rightarrow> string list \<Rightarrow> string list" where
  "add_product_urls [] all_product_urls = all_product_urls"
| "add_product_urls (u # urls) all_product_urls =
     add_product_urls urls
       (case u of
          JStr url \<Rightarrow>
            if url \<noteq> [] \<and> str_in ''/products/'' (qualify url)
            then List.insert (qualify url) all_product_urls else all_product_urls
        | _ \<Rightarrow> all_product_urls)"

text \<open>
  One pass of the loop over the collections; \<open>api page\<close> is what \<open>make_request_with_retry\<close>
  returns for the request about \<open>page\<close> (\<^const>\<open>None\<close>: no response).
\<close>

definition scrape_collection ::
  "(string \<Rightarrow> response option) \<Rightarrow> string list \<Rightarrow> string \<Rightarrow> string list" where
  "scrape_collection api all_product_urls collection_url =
     (case api collection_url of
        None \<Rightarrow> all_product_urls
      | Some response \<Rightarrow>
          if status_code response = 200 then
            (case listed_urls ''product_urls'' response of
               Inl e \<Rightarrow> all_product_urls
             | Inr urls \<Rightarrow> add_product_urls urls all_product_urls)
          else all_product_urls)"

text \<open>
  \<open>'/products/' in str(url)\<close>: on a string, a substring test. The \<open>str\<close> of a number, of
  \<open>True\<close> or of \<open>None\<close> has no slash; that of a list or an object shows its strings between
  quotes, with escapes that all start with a backslash, so the text occurs in it exactly
  when it occurs in one of the strings inside.
\<close>

primrec repr_mentions :: "string \<Rightarrow> json \<Rightarrow> bool" where
  "repr_mentions sub JNull = False"
| "repr_mentions sub (JBool b) = False"
| "repr_mentions sub (JNum n) = False"
| "repr_mentions sub (JStr s) = str_in sub s"
| "repr_mentions sub (JList xs) = list_ex id (map (repr_mentions sub) xs)"
| "repr_mentions sub (JObj kvs) =
     list_ex (\<lambda>(k, found). str_in sub k \<or> found) (map (map_prod id (repr_mentions sub)) kvs)"

text \<open>
  The loop of \<open>discover_fallback_urls\<close>. A value that is not a string has no
  \<open>startswith\<close>: the exception leaves the \<open>try\<close> block and the function returns \<open>[]\<close>.
\<close>

fun fallback_loop :: "json list \<Rightarrow> string list \<Rightarrow> py_error + string list" where
  "fallback_loop [] product_urls = Inr product_urls"
| "fallback_loop (u # urls) product_urls =
     (if truthy u \<and> repr_mentions ''/products/'' u then
        (case u of
           JStr url \<Rightarrow> fallback_loop urls (product_urls @ [qualify url])
         | _ \<Rightarrow> Inl AttributeError)
      else fallback_loop urls product_urls)"

definition discover_fallback_urls :: "(string \<Rightarrow> response option) \<Rightarrow> string list" where
  "discover_fallback_urls api =
     (case api BASE_URL of
        None \<Rightarrow> []
      | Some response \<Rightarrow>
          if status_code response = 200 then
            (case listed_urls ''urls'' response of
               Inl e \<Rightarrow> []
             | Inr urls \<Rightarrow>
                 (case fallback_loop urls [] of Inl e \<Rightarrow> [] | Inr product_urls \<Rightarrow> product_urls))
          else [])"

text \<open>
  \<open>discover_product_urls\<close>: every collection in turn, then the fallback when nothing was
  found, else the pass that cuts each URL at its first \<open>?\<close> and removes the repetitions.
\<close>

definition discover_product_urls :: "(string \<Rightarrow> response option) \<Rightarrow> string list" where
  "discover_product_urls api =
     (let product_urls = fold (\<lambda>collection_url all. scrape_collection api all collection_url)
            collection_urls []
      in if product_urls = [] then discover_fallback_urls api
         else remdups (map (split_head ''?'') product_urls))"

text \<open>
  For the statements: what the claim asks of a discovered URL, an answer of the extraction
  API with a list of URLs under \<open>key\<close>, and two sites: one where only the root page answers,
  one where only the collection of throws does.
\<close>

definition is_absolute :: "string \<Rightarrow> bool" where
  "is_absolute url = (prefix ''http://'' url \<or> prefix ''https://'' url)"

definition url_ok :: "string \<Rightarrow> bool" where
  "url_ok url = (is_absolute url \<and> str_in ''/products/'' url \<and> \<not> List.member url CHR ''?'')"

definition answer :: "string \<Rightarrow> json list \<Rightarrow> response" where
  "answer key urls =
     \<lparr>status_code = 200, retry_after = Absent,
      body = Some (JObj [(''success'', JBool True),
               (''data'', JObj [(''json'', JObj [(key, JList urls)])])])\<rparr>"

definition root_only :: "string \<Rightarrow> response option" where
  "root_only page =
     (if page = BASE_URL
      then Some (answer ''urls'' [JStr ''/products/rio-throw?variant=41'', JStr ''/collections/rugs''])
      else None)"

definition throws_only :: "string \<Rightarrow> response option" where
  "throws_only page =
     (if page = BASE_URL @ ''/collections/throws''
      then Some (answer ''product_urls''
        [JStr ''/products/rio-throw?variant=41'', JStr ''/products/rio-throw?variant=42''])
      else None)"

section \<open>Strings: lemmas\<close>

lemma str_in_iff: "str_in sub s \<longleftrightarrow> (\<exists>i\<le>length s. prefix sub (drop i s))"
proof (induction s)
  case Nil
  then show ?case by simp
next
  case (Cons c cs)
  show ?case
  proof
    assume "str_in sub (c # cs)"
    then consider "prefix sub (c # cs)" | "str_in sub cs" by auto
    then show "\<exists>i\<le>length (c # cs). prefix sub (drop i (c # cs))"
    proof cases
      case 1
      then have "prefix sub (drop 0 (c # cs))" by simp
      then show ?thesis by blast
    next
      case 2
      with Cons.IH obtain i where "i \<le> length cs" "prefix sub (drop i cs)" by blast
      then have "Suc i \<le> length (c # cs)" "prefix sub (drop (Suc i) (c # cs))" by simp_all
      then show ?thesis by blast
    qed
  next
    assume "\<exists>i\<le>length (c # cs). prefix sub (drop i (c # cs))"
    then obtain i where i: "i \<le> length (c # cs)" "prefix sub (drop i (c # cs))" by blast
    show "str_in sub (c # cs)"
    proof (cases i)
      case 0
      with i show ?thesis by simp
    next
      case (Suc j)
      with i have "j \<le> length cs" "prefix sub (drop j cs)" by simp_all
      with Cons.IH have "str_in sub cs" by blast
      then show ?thesis by simp
    qed
  qed
qed

lemma prefix_take_eq: "prefix a s \<longleftrightarrow> take (length a) s = a"
  by (metis append_eq_conv_conj prefix_def append_take_drop_id)

lemma ci_occurs_iff: "ci_occurs k t \<longleftrightarrow> (\<exists>i\<le>length t. ci_eq (take (length k) (drop i t)) k)"
proof -
  have "(\<exists>i\<in>set [0..<Suc n]. P i) \<longleftrightarrow> (\<exists>i\<le>n. P i)" for n and P :: "nat \<Rightarrow> bool"
    by (auto simp: less_Suc_eq_le simp del: upt_Suc)
  then show ?thesis
    by (simp only: ci_occurs_def list_ex_iff)
qed

lemma str_in_lower_iff: "str_in (lower k) (lower t) \<longleftrightarrow> ci_occurs k t"
proof -
  have "prefix (lower k) (drop i (lower t)) \<longleftrightarrow> ci_eq (take (length k) (drop i t)) k" for i
    by (simp add: prefix_take_eq lower_def ci_eq_def drop_map take_map)
  then show ?thesis
    by (simp add: str_in_iff ci_occurs_iff lower_def)
qed

lemma scan_keywords_filter:
  "scan_keywords txt ks found = found @ filter (\<lambda>k. str_in (lower k) txt) ks"
  by (induction ks arbitrary: found) auto

lemma ci_occurs_empty: "k \<noteq> [] \<Longrightarrow> \<not> ci_occurs k []"
  by (simp add: ci_occurs_def ci_eq_def)

lemma keywords_nonempty: "k \<in> set keywords_vocab \<Longrightarrow> k \<noteq> []"
  by (auto simp: keywords_vocab_def)

section \<open>The retry client: lemmas\<close>







section \<open>File names: lemmas\<close>

lemma sub_unwanted_filter: "sub_unwanted s = filter is_kept s"
  by (induction s) (simp_all add: is_kept_def)

lemma collapse_from_dropWhile: "collapse_from True cs = collapse_from True (dropWhile is_sep cs)"
  by (induction cs) auto

lemma collapse_from_flag:
  "cs = [] \<or> \<not> is_sep (hd cs) \<Longrightarrow> collapse_from a cs = collapse_from b cs"
  by (cases cs) auto

lemma sub_runs_collapse_from: "sub_runs s = collapse_from False s"
proof (induction s rule: sub_runs.induct)
  case 1
  show ?case by simp
next
  case (2 c cs)
  show ?case
  proof (cases "is_sep c")
    case True
    have "dropWhile is_sep cs = [] \<or> \<not> is_sep (hd (dropWhile is_sep cs))"
      by (metis hd_dropWhile)
    then have "collapse_from False (dropWhile is_sep cs) = collapse_from True (dropWhile is_sep cs)"
      by (rule collapse_from_flag)
    with True 2 show ?thesis
      using collapse_from_dropWhile [of cs] by simp
  next
    case False
    with 2 show ?thesis by simp
  qed
qed

lemma pieces_collapse_from:
  "concat (map (piece (p @ s)) [length p..<length p + length s]) =
   collapse_from (p \<noteq> [] \<and> is_sep (last p)) s"
proof (induction s arbitrary: p)
  case Nil
  show ?case by simp
next
  case (Cons c cs)
  have range: "[length p..<length p + length (c # cs)] =
      length p # [length (p @ [c])..<length (p @ [c]) + length cs]"
    using upt_conv_Cons [of "length p" "length p + length (c # cs)"] by (simp del: upt_Suc)
  have before: "0 < length p \<and> is_sep ((p @ c # cs) ! (length p - 1)) \<longleftrightarrow> p \<noteq> [] \<and> is_sep (last p)"
    by (cases p rule: rev_cases) (simp_all add: nth_append)
  have first: "piece (p @ c # cs) (length p) =
      (if is_sep c then (if p \<noteq> [] \<and> is_sep (last p) then [] else ''_'') else [c])"
    unfolding piece_def before by simp
  have "concat (map (piece ((p @ [c]) @ cs)) [length (p @ [c])..<length (p @ [c]) + length cs]) =
      collapse_from ((p @ [c]) \<noteq> [] \<and> is_sep (last (p @ [c]))) cs"
    by (rule Cons.IH)
  then have rest: "concat (map (piece (p @ c # cs)) [length (p @ [c])..<length (p @ [c]) + length cs]) =
      collapse_from (is_sep c) cs"
    by simp
  show ?case
    unfolding range using first rest by (cases "is_sep c") simp_all
qed

lemma sub_runs_collapse_runs: "sub_runs s = collapse_runs s"
  using pieces_collapse_from [of "[]" s] by (simp add: collapse_runs_def sub_runs_collapse_from)

section \<open>Prices: lemmas\<close>










section \<open>Descriptions: lemmas\<close>

lemma words_ok_simps:
  "words_ok []"
  "words_ok (w # ws) \<longleftrightarrow> w \<noteq> [] \<and> (\<forall>c\<in>set w. \<not> isspace c) \<and> words_ok ws"
  "words_ok (us @ vs) \<longleftrightarrow> words_ok us \<and> words_ok vs"
  by (auto simp: words_ok_def)

lemma split_ws_words:
  "\<forall>c\<in>set word. \<not> isspace c \<Longrightarrow> words_ok (split_ws word s)"
proof (induction s arbitrary: word)
  case Nil
  then show ?case by (simp add: words_ok_simps)
next
  case (Cons c s)
  show ?case
  proof (cases "isspace c")
    case True
    have "words_ok (split_ws [] s)" by (rule Cons.IH) simp
    with True Cons.prems show ?thesis by (simp add: words_ok_simps)
  next
    case False
    with Cons.prems have "\<forall>x\<in>set (word @ [c]). \<not> isspace x" by simp
    then have "words_ok (split_ws (word @ [c]) s)" by (rule Cons.IH)
    with False show ?thesis by simp
  qed
qed

lemma split_ws_append:
  "\<forall>c\<in>set w. \<not> isspace c \<Longrightarrow> split_ws word (w @ s) = split_ws (word @ w) s"
  by (induction w arbitrary: word) auto

lemma isspace_space: "isspace CHR '' ''" and isspace_newline: "isspace newline"
  by (simp_all add: isspace_def newline_def)

lemma split_ws_join: "words_ok ws \<Longrightarrow> split_ws [] (join_space ws) = ws"
proof (induction ws rule: join_space.induct)
  case 1
  show ?case by simp
next
  case (2 w)
  then have "\<forall>c\<in>set w. \<not> isspace c" "w \<noteq> []" by (simp_all add: words_ok_simps)
  then show ?case using split_ws_append [of w "[]" "[]"] by simp
next
  case (3 w v ws)
  then have w: "\<forall>c\<in>set w. \<not> isspace c" "w \<noteq> []" and rest: "words_ok (v # ws)"
    by (simp_all add: words_ok_def)
  have "split_ws [] (w @ CHR '' '' # join_space (v # ws)) = split_ws w (CHR '' '' # join_space (v # ws))"
    using split_ws_append [OF w(1), of "[]"] by simp
  also have "\<dots> = w # split_ws [] (join_space (v # ws))"
    using w(2) by (simp add: isspace_space)
  finally show ?case using 3(1) [OF rest] by simp
qed

lemma join_space_chars:
  "words_ok ws \<Longrightarrow> c \<in> set (join_space ws) \<Longrightarrow> c = CHR '' '' \<or> \<not> isspace c"
  by (induction ws rule: join_space.induct) (auto simp: words_ok_def)

lemma join_space_ends:
  "words_ok ws \<Longrightarrow> ws \<noteq> [] \<Longrightarrow>
   join_space ws \<noteq> [] \<and> \<not> isspace (hd (join_space ws)) \<and> \<not> isspace (last (join_space ws))"
proof (induction ws rule: join_space.induct)
  case 1
  then show ?case by simp
next
  case (2 w)
  then show ?case by (simp add: words_ok_def)
next
  case (3 w v ws)
  then have "words_ok (v # ws)" by (simp add: words_ok_def)
  with 3 have "join_space (v # ws) \<noteq> []" "\<not> isspace (last (join_space (v # ws)))" by simp_all
  moreover from 3(2) have "w \<noteq> []" "\<not> isspace (hd w)" by (simp_all add: words_ok_def)
  ultimately show ?case by simp
qed

lemma strip_id:
  assumes "s = [] \<or> (\<not> isspace (hd s) \<and> \<not> isspace (last s))"
  shows "strip s = s"
proof (cases "s = []")
  case True
  then show ?thesis by (simp add: strip_def)
next
  case False
  with assms have h: "\<not> isspace (hd s)" and l: "\<not> isspace (last s)" by simp_all
  from False obtain c cs where front: "s = c # cs" by (cases s) auto
  from False obtain ys y where rear: "s = ys @ [y]" by (cases s rule: rev_cases) auto
  from h front have "dropWhile isspace s = s" by simp
  moreover from l rear have "dropWhile isspace (rev s) = rev s" by simp
  ultimately show ?thesis by (simp add: strip_def)
qed

lemma strip_join: "words_ok ws \<Longrightarrow> strip (join_space ws) = join_space ws"
proof (cases "ws = []")
  case True
  then show ?thesis by (simp add: strip_def)
next
  case False
  assume "words_ok ws"
  with False have "\<not> isspace (hd (join_space ws)) \<and> \<not> isspace (last (join_space ws))"
    using join_space_ends [of ws] by simp
  then show ?thesis by (intro strip_id) simp
qed

lemma py_replace_no_first: "a \<notin> set s \<Longrightarrow> py_replace (a # r) new s = s"
  by (induction s) auto

lemma newline_not_in_join: "words_ok ws \<Longrightarrow> newline \<notin> set (join_space ws)"
  using join_space_chars [of ws newline] isspace_newline by (auto simp: newline_def)

lemma normalise_space_join: "words_ok ws \<Longrightarrow> normalise_space (join_space ws) = join_space ws"
  by (simp add: normalise_space_def py_replace_no_first newline_not_in_join split_ws_join strip_join)

lemma normalise_space_is_join:
  "\<exists>ws. words_ok ws \<and> normalise_space s = join_space ws"
proof -
  let ?ws = "split_ws [] (py_replace [newline] '' '' (py_replace [newline, newline] '' '' s))"
  have "words_ok ?ws" by (rule split_ws_words) simp
  then show ?thesis
    by (auto simp: normalise_space_def Let_def strip_join)
qed

lemma normalise_space_idem: "normalise_space (normalise_space s) = normalise_space s"
  using normalise_space_is_join [of s] normalise_space_join by auto

lemma truncate_no_marker:
  "list_all (\<lambda>marker. \<not> str_in marker d) ms \<Longrightarrow> truncate_at_markers ms d = d"
  by (induction ms) auto

lemma normalise_space_Nil: "normalise_space [] = []"
  by (simp add: normalise_space_def strip_def)

lemma clean_description_str:
  "clean_description (JStr d) = Inr (normalise_space (truncate_at_markers sections_to_remove d))"
proof (cases d)
  case Nil
  have "truncate_at_markers ms [] = []" for ms
    by (induction ms) auto
  with Nil show ?thesis by (simp add: clean_description_def truthy_def normalise_space_Nil)
next
  case Cons
  then show ?thesis by (simp add: clean_description_def truthy_def)
qed

section \<open>JSON to CSV: lemmas\<close>





section \<open>Claims\<close>





text \<open>
  C4. For every input text, keyword extraction returns exactly the entries of the fixed
  vocabulary that occur in the text as case-insensitive substrings, in vocabulary order;
  a text with "HANDMADE" and "organic" gives Handmade before Organic.
\<close>

theorem extract_keywords_vocabulary_order:
  "extract_keywords text = filter (\<lambda>k. ci_occurs k text) keywords_vocab"
proof (cases "text = []")
  case True
  have "filter (\<lambda>k. ci_occurs k []) keywords_vocab = []"
    using ci_occurs_empty keywords_nonempty by (auto simp: filter_empty_conv)
  with True show ?thesis by (simp add: extract_keywords_def)
next
  case False
  then show ?thesis
    by (simp add: extract_keywords_def scan_keywords_filter str_in_lower_iff)
qed

theorem extract_keywords_vocabulary_order_witness:
  "extract_keywords ''organic cotton, HANDMADE'' = [''Handmade'', ''Organic''] \<and>
   filter (\<lambda>k. ci_occurs k ''organic cotton, HANDMADE'') keywords_vocab = [''Handmade'', ''Organic'']"
proof -
  have "extract_keywords ''organic cotton, HANDMADE'' = [''Handmade'', ''Organic'']"
    by code_simp
  then show ?thesis
    using extract_keywords_vocabulary_order [of "''organic cotton, HANDMADE''"] by simp
qed

text \<open>
  C5. For every current price string, the displayed price is "current (was original)" when
  an original price is present and differs from the current one, and the current price
  alone otherwise (original equal to the current price, absent, or null).
\<close>

theorem price_display_format:
  "price_display (Some current) original = Some (displayed_price current original)"
  by (cases original)
    (auto simp: price_display_def displayed_price_def original_present_def truthy_price_def
      format_price_def)

theorem price_display_format_witness:
  "price_display (Some ''$100'') (Some ''$150'') = Some ''$100 (was $150)'' \<and>
   price_display (Some ''$100'') (Some ''$100'') = Some ''$100'' \<and>
   price_display (Some ''$100'') (Some []) = Some ''$100'' \<and>
   price_display (Some ''$100'') None = Some ''$100''"
  by (simp add: price_display_format displayed_price_def original_present_def)

text \<open>
  C6. For every product name, filename cleaning strips what is not a word character,
  whitespace or a hyphen, then puts one underscore for every run of hyphens and whitespace,
  then keeps at most 50 characters; an empty name, or \<open>None\<close>, gives the placeholder
  \<open>unknown_product\<close>.
\<close>

theorem clean_filename_steps:
  "clean_filename None = ''unknown_product'' \<and>
   clean_filename (Some []) = ''unknown_product'' \<and>
   (name \<noteq> [] \<longrightarrow> clean_filename (Some name) = filename_of name) \<and>
   length (filename_of name) \<le> 50"
  by (simp add: clean_filename_def filename_of_def sub_unwanted_filter sub_runs_collapse_runs)

theorem clean_filename_steps_witness:
  "clean_filename (Some ''Rio Throw (Grey) #2'') = ''Rio_Throw_Grey_2''"
proof -
  have "filename_of ''Rio Throw (Grey) #2'' = ''Rio_Throw_Grey_2''"
    by code_simp
  then show ?thesis
    using clean_filename_steps [of "''Rio Throw (Grey) #2''"] by simp
qed




text \<open>
  C8 (amended). For every description that holds no boilerplate marker and whose form with
  the whitespace normalised (line breaks and runs of whitespace as single spaces, trimmed)
  holds none either, the cleaner applied to its own output gives that output again.
\<close>

theorem clean_description_idempotent:
  assumes "no_marker d" and "no_marker (normalise_space d)"
  shows "\<not> isl (clean_description (JStr d)) \<and>
    clean_description (JStr (projr (clean_description (JStr d)))) = clean_description (JStr d)"
proof -
  have once: "clean_description (JStr d) = Inr (normalise_space d)"
    using assms(1) by (simp add: clean_description_str no_marker_def truncate_no_marker)
  have "clean_description (JStr (normalise_space d)) = Inr (normalise_space (normalise_space d))"
    using assms(2) by (simp add: clean_description_str no_marker_def truncate_no_marker)
  with once show ?thesis by (simp add: normalise_space_idem)
qed

text \<open>
  C8 as stated fails: normalising the whitespace can put a marker together. The first
  description holds no marker; its cleaned form holds "Based on" and is cut there by a
  second run.
\<close>

theorem clean_description_twice_differs:
  "no_marker based_on \<and>
   clean_description (JStr based_on) = Inr ''Hand-loomed in Peru. Based on a traditional pattern.'' \<and>
   clean_description (JStr ''Hand-loomed in Peru. Based on a traditional pattern.'') =
     Inr ''Hand-loomed in Peru.''"
  by code_simp

theorem clean_description_idempotent_witness:
  "clean_description (JStr ''  Handwoven   wool rug  '') = Inr ''Handwoven wool rug'' \<and>
   clean_description (JStr ''Handwoven wool rug'') = Inr ''Handwoven wool rug''"
proof -
  have a: "no_marker ''  Handwoven   wool rug  ''" by code_simp
  have n: "normalise_space ''  Handwoven   wool rug  '' = ''Handwoven wool rug''" by code_simp
  have b: "no_marker ''Handwoven wool rug''" by code_simp
  have c: "clean_description (JStr ''  Handwoven   wool rug  '') = Inr ''Handwoven wool rug''"
    using a n by (simp add: clean_description_str no_marker_def truncate_no_marker)
  show ?thesis
    using clean_description_idempotent [of "''  Handwoven   wool rug  ''"] a b n c by simp
qed

text \<open>
  C1. The claim is that the description is cut at the earliest offset at which any marker
  occurs. In the text below "Easy 30 Day Returns" occurs first, at offset 17; the loop
  meets the marker "Returns" (listed before it) at offset 29, cuts there, and then no
  longer finds "Easy 30 Day Returns": the notice stays in the cleaned description.
\<close>

theorem truncation_misses_earliest_marker:
  "earliest_marker throw_text = Some 17 \<and>
   truncate_at_earliest throw_text = ''Soft wool throw. '' \<and>
   truncate_at_markers sections_to_remove throw_text = ''Soft wool throw. Easy 30 Day '' \<and>
   clean_description (JStr throw_text) = Inr ''Soft wool throw. Easy 30 Day''"
  by code_simp





text \<open>
  C3. The claim is that every discovered URL, also one from the fallback, is absolute, holds
  \<open>/products/\<close> and has no query string. When only the root page answers, the fallback
  returns the URL with its query; the same URL found in a collection comes back without it.
\<close>

theorem fallback_keeps_query_string:
  "discover_product_urls root_only =
     [''https://www.the-citizenry.com/products/rio-throw?variant=41''] \<and>
   \<not> url_ok ''https://www.the-citizenry.com/products/rio-throw?variant=41'' \<and>
   discover_product_urls throws_only = [''https://www.the-citizenry.com/products/rio-throw''] \<and>
   url_ok ''https://www.the-citizenry.com/products/rio-throw''"
  by code_simp

end
